theory Spec2Isabelle
  imports Main "HOL-Library.Multiset"
begin

section \<open>scl: search container logs\<close>

text \<open>
  A shallow embedding of \<^verbatim>\<open>main.go\<close> of bnema/scl. A Go \<^verbatim>\<open>string\<close> is a
  sequence of bytes, here a \<^typ>\<open>string\<close> (a list of 8-bit characters). The external
  \<^verbatim>\<open>docker\<close> subprocesses and the goroutine scheduler are the environment: what
  they answer and decide is an explicit argument of the functions below.
\<close>

subsection \<open>The functions of Go's \<^verbatim>\<open>strings\<close> package that the program calls\<close>

text \<open>\<^verbatim>\<open>strings.HasPrefix(s, prefix)\<close>: \<^verbatim>\<open>len(s) >= len(prefix) && s[:len(prefix)] == prefix\<close>.\<close>

definition strings_HasPrefix :: "string \<Rightarrow> string \<Rightarrow> bool" where
  "strings_HasPrefix s pre = (length pre \<le> length s \<and> take (length pre) s = pre)"

text \<open>\<^verbatim>\<open>strings.HasSuffix(s, suffix)\<close>: \<^verbatim>\<open>len(s) >= len(suffix) && s[len(s)-len(suffix):] == suffix\<close>.\<close>

definition strings_HasSuffix :: "string \<Rightarrow> string \<Rightarrow> bool" where
  "strings_HasSuffix s suf = (length suf \<le> length s \<and> drop (length s - length suf) s = suf)"

text \<open>
  \<^verbatim>\<open>strings.Index(s, substr)\<close>: the index of the first instance of \<^verbatim>\<open>substr\<close> in
  \<^verbatim>\<open>s\<close>, or \<^verbatim>\<open>-1\<close> when there is none. The search goes from the left, one byte
  at a time, and compares bytes.
\<close>

fun strings_Index :: "string \<Rightarrow> string \<Rightarrow> int" where
  "strings_Index [] substr = (if substr = [] then 0 else - 1)"
| "strings_Index (c # s) substr =
     (if strings_HasPrefix (c # s) substr then 0
      else (let i = strings_Index s substr in if i < 0 then - 1 else i + 1))"

text \<open>\<^verbatim>\<open>strings.Contains(s, substr)\<close> is \<^verbatim>\<open>Index(s, substr) >= 0\<close>.\<close>

definition strings_Contains :: "string \<Rightarrow> string \<Rightarrow> bool" where
  "strings_Contains s substr = (0 \<le> strings_Index s substr)"

text \<open>
  \<^verbatim>\<open>strings.Split(s, sep)\<close> for a separator of one byte (the program splits at
  \<^verbatim>\<open>"\n"\<close> and at \<^verbatim>\<open>":"\<close> only): the fields between the separators, in order.
  The empty string gives one empty field.
\<close>

fun strings_Split :: "string \<Rightarrow> char \<Rightarrow> string list" where
  "strings_Split [] sep = [[]]"
| "strings_Split (c # s) sep =
     (if c = sep then [] # strings_Split s sep
      else (case strings_Split s sep of
              [] \<Rightarrow> [[c]]
            | field # fields \<Rightarrow> (c # field) # fields))"

text \<open>
  \<^verbatim>\<open>strings.TrimSpace(s)\<close> removes leading and trailing white space as Unicode
  defines it (\<^verbatim>\<open>unicode.IsSpace\<close>). On the bytes of a string these are the six
  ASCII characters tab, line feed, vertical tab, form feed, carriage return and space,
  and the UTF-8 encodings of U+0085, U+00A0, U+1680, U+2000 to U+200A, U+2028, U+2029,
  U+202F, U+205F and U+3000.
\<close>

definition white_space :: "string list" where
  "white_space =
     map (\<lambda>c. [c]) [CHR 0x09, CHR 0x0A, CHR 0x0B, CHR 0x0C, CHR 0x0D, CHR 0x20] @
     [[CHR 0xC2, CHR 0x85], [CHR 0xC2, CHR 0xA0], [CHR 0xE1, CHR 0x9A, CHR 0x80]] @
     map (\<lambda>c. [CHR 0xE2, CHR 0x80, c])
       [CHR 0x80, CHR 0x81, CHR 0x82, CHR 0x83, CHR 0x84, CHR 0x85, CHR 0x86, CHR 0x87,
        CHR 0x88, CHR 0x89, CHR 0x8A, CHR 0xA8, CHR 0xA9, CHR 0xAF] @
     [[CHR 0xE2, CHR 0x81, CHR 0x9F], [CHR 0xE3, CHR 0x80, CHR 0x80]]"

text \<open>The width in bytes of the white space character a string begins with; 0 when it begins with none.\<close>

definition leading_space :: "string \<Rightarrow> nat" where
  "leading_space s =
     (case find (strings_HasPrefix s) white_space of None \<Rightarrow> 0 | Some q \<Rightarrow> length q)"

fun TrimLeft_space :: "string \<Rightarrow> string" where
  "TrimLeft_space [] = []"
| "TrimLeft_space (c # s) =
     (if leading_space (c # s) = 0 then c # s
      else TrimLeft_space (drop (leading_space (c # s) - 1) s))"

text \<open>The same from the right end: a white space character ends the string when its encoding is a suffix.\<close>

definition trailing_space :: "string \<Rightarrow> nat" where
  "trailing_space s =
     (case find (strings_HasSuffix s) white_space of None \<Rightarrow> 0 | Some q \<Rightarrow> length q)"

function TrimRight_space :: "string \<Rightarrow> string" where
  "TrimRight_space s =
     (if s = [] \<or> trailing_space s = 0 then s
      else TrimRight_space (take (length s - trailing_space s) s))"
  by pat_completeness auto
termination
  by (relation "measure length") auto

definition strings_TrimSpace :: "string \<Rightarrow> string" where
  "strings_TrimSpace s = TrimRight_space (TrimLeft_space s)"

text \<open>\<^verbatim>\<open>fmt.Sprintf("%d", i)\<close>: the decimal digits of an integer, with a minus sign when it is negative.\<close>

definition digit :: "nat \<Rightarrow> char" where
  "digit d = char_of (48 + d)"

function decimal :: "nat \<Rightarrow> string" where
  "decimal n = (if n < 10 then [digit n] else decimal (n div 10) @ [digit (n mod 10)])"
  by pat_completeness auto
termination
  by (relation "measure id") auto

definition Sprintf_d :: "int \<Rightarrow> string" where
  "Sprintf_d i = (if i < 0 then CHR ''-'' # decimal (nat (- i)) else decimal (nat i))"

subsection \<open>Data\<close>

text \<open>The struct \<^verbatim>\<open>Result\<close>. A Go \<^verbatim>\<open>int\<close> has 64 bits; no stream reaches
  \<^verbatim>\<open>2^63\<close> lines, so line numbers and counts are unbounded integers here.\<close>

record Result =
  ContainerID :: string
  ContainerName :: string
  Line :: string
  LineNum :: int

text \<open>The package variables \<^verbatim>\<open>pattern\<close>, \<^verbatim>\<open>sincePeriod\<close>, \<^verbatim>\<open>tailLines\<close> and
  \<^verbatim>\<open>follow\<close>. A flag that is not given keeps its default: \<^verbatim>\<open>""\<close>, \<^verbatim>\<open>0\<close>,
  \<^verbatim>\<open>false\<close>.\<close>

record config =
  pattern :: string
  sincePeriod :: string
  tailLines :: int
  follow :: bool

text \<open>The errors of the program, by the place that raises them: the two of \<^verbatim>\<open>RunE\<close>, the
  two of \<^verbatim>\<open>PreRunE\<close>, the one of \<^verbatim>\<open>getContainers\<close>, and the two run-time panics: the index out
  of range of \<^verbatim>\<open>parts[1]\<close> and the slice bounds out of range of
  \<^verbatim>\<open>result.ContainerID[:12]\<close>.\<close>

datatype error =
  TooManyArgs | NothingToDo | InvalidSince | NegativeTail | ListingFailed | IndexOutOfRange |
  SliceOutOfRange

text \<open>
  The environment of a run: what \<^verbatim>\<open>docker ps\<close> answers (\<open>None\<close> when
  \<^verbatim>\<open>cmd.Output()\<close> returns an error), the bytes that \<^verbatim>\<open>docker\<close> with a given argument
  list writes to its standard output until it closes it (\<open>None\<close> when the pipe or the
  start of the command fails), the number of CPUs, the scheduler's choice, for the stream
  of a given argument list, of the worker that receives each line, and, for follow mode,
  whether the printing goroutine gets through the last result it received before
  \<^verbatim>\<open>main\<close> returns.
\<close>

record env =
  docker_ps :: "string option"
  docker_logs :: "string list \<Rightarrow> string option"
  NumCPU :: nat
  fanout :: "string list \<Rightarrow> nat list"
  last_rendered :: bool

text \<open>
  What a run leaves behind: the error or panic it ends with, if any; the \<^verbatim>\<open>docker\<close>
  argument lists it asks for (\<^verbatim>\<open>ps\<close> by \<^verbatim>\<open>getContainers\<close>, then one \<^verbatim>\<open>logs\<close>
  per pipeline, in the order of the loop); and, in batch mode, the map
  \<^verbatim>\<open>containerResults\<close> with the counter \<^verbatim>\<open>totalMatches\<close> as the collecting loop
  leaves them.
\<close>

record outcome =
  failure :: "error option"
  commands :: "string list list"
  report :: "((string \<rightharpoonup> Result list) \<times> int) option"

subsection \<open>Validation: \<^verbatim>\<open>PreRunE\<close>\<close>

definition PreRunE :: "config \<Rightarrow> error option" where
  "PreRunE cfg =
     (if sincePeriod cfg \<noteq> [] \<and>
         \<not> strings_HasSuffix (sincePeriod cfg) ''h'' \<and>
         \<not> strings_HasSuffix (sincePeriod cfg) ''m'' \<and>
         \<not> strings_HasSuffix (sincePeriod cfg) ''s''
      then Some InvalidSince
      else if tailLines cfg < 0 then Some NegativeTail
      else None)"

subsection \<open>\<^verbatim>\<open>getDockerArgs\<close> and \<^verbatim>\<open>getContainers\<close>\<close>

definition getDockerArgs :: "config \<Rightarrow> string \<Rightarrow> string list" where
  "getDockerArgs cfg containerID =
     (let cmdArgs = [''logs''];
          cmdArgs = (if follow cfg then cmdArgs @ [''--follow''] else cmdArgs);
          cmdArgs = (if sincePeriod cfg \<noteq> [] then cmdArgs @ [''--since'', sincePeriod cfg]
                     else cmdArgs);
          cmdArgs = (if 0 < tailLines cfg then cmdArgs @ [''--tail'', Sprintf_d (tailLines cfg)]
                     else cmdArgs)
      in cmdArgs @ [containerID])"

definition ps_args :: "string list" where
  "ps_args = [''ps'', ''--format'', ''{{.ID}}:{{.Names}}'']"

definition getContainers :: "env \<Rightarrow> error + string list" where
  "getContainers e =
     (case docker_ps e of
        None \<Rightarrow> Inl ListingFailed
      | Some output \<Rightarrow> Inr (strings_Split (strings_TrimSpace output) (CHR 0x0A)))"

subsection \<open>\<^verbatim>\<open>searchContainerLogs\<close>: one reader, \<^verbatim>\<open>NumCPU\<close> workers\<close>

text \<open>
  One worker goroutine: its own counter \<^verbatim>\<open>lineNum\<close>, starting at 1, counts the lines
  this worker receives from the channel \<^verbatim>\<open>lines\<close>; a line that contains the pattern
  is sent on with the counter's value.
\<close>

fun worker :: "string \<Rightarrow> string \<Rightarrow> string \<Rightarrow> int \<Rightarrow> string list \<Rightarrow> Result list" where
  "worker containerID containerName pat lineNum [] = []"
| "worker containerID containerName pat lineNum (line # lines) =
     (if strings_Contains line pat
      then [\<lparr>ContainerID = containerID, ContainerName = containerName,
              Line = line, LineNum = lineNum\<rparr>]
      else []) @
     worker containerID containerName pat (lineNum + 1) lines"

text \<open>
  The channel \<^verbatim>\<open>lines\<close> is unbuffered: each line the reader sends is received by
  exactly one worker, and a worker receives its lines in the order they were sent. A
  schedule names the receiving worker of each line in turn.
\<close>

definition fan_out :: "nat \<Rightarrow> nat list \<Rightarrow> string list \<Rightarrow> bool" where
  "fan_out numWorkers sched lines =
     (length sched = length lines \<and> list_all (\<lambda>w. w < numWorkers) sched)"

definition received :: "nat list \<Rightarrow> string list \<Rightarrow> nat \<Rightarrow> string list" where
  "received sched lines w = map fst (filter (\<lambda>(line, v). v = w) (zip lines sched))"

text \<open>What each of the workers sends to \<^verbatim>\<open>results\<close>, in its own order.\<close>

definition pool ::
  "string \<Rightarrow> string \<Rightarrow> string \<Rightarrow> nat \<Rightarrow> nat list \<Rightarrow> string list \<Rightarrow> Result list list" where
  "pool containerID containerName pat numWorkers sched lines =
     map (\<lambda>w. worker containerID containerName pat 1 (received sched lines w)) [0..<numWorkers]"

text \<open>
  The reader: \<^verbatim>\<open>bufio.NewScanner(stdout)\<close> with the default split function
  \<^verbatim>\<open>ScanLines\<close> and the default buffer. A token is the bytes up to the next line
  feed, without a carriage return at its end; bytes after the last line feed are a token
  when there are any. The buffer grows to \<^verbatim>\<open>MaxScanTokenSize\<close> bytes: when it is full
  and holds no line feed, \<^verbatim>\<open>Scan\<close> returns false for good. The program does not look at
  \<^verbatim>\<open>scanner.Err()\<close>, so the loop just ends there. The first argument of \<open>scan\<close>
  is the part of the current line read so far.
\<close>

definition MaxScanTokenSize :: nat where
  "MaxScanTokenSize = 64 * 1024"

definition dropCR :: "string \<Rightarrow> string" where
  "dropCR data = (if data \<noteq> [] \<and> last data = CHR 0x0D then butlast data else data)"

fun scan :: "string \<Rightarrow> string \<Rightarrow> string list" where
  "scan cur [] = (if cur = [] \<or> MaxScanTokenSize \<le> length cur then [] else [dropCR cur])"
| "scan cur (c # data) =
     (if c = CHR 0x0A
      then (if MaxScanTokenSize \<le> length cur then [] else dropCR cur # scan [] data)
      else scan (cur @ [c]) data)"


definition searchContainerLogs :: "config \<Rightarrow> env \<Rightarrow> string \<Rightarrow> string \<Rightarrow> Result list list" where
  "searchContainerLogs cfg e containerID containerName =
     (let cmdArgs = getDockerArgs cfg containerID in
      case docker_logs e cmdArgs of
        None \<Rightarrow> []
      | Some stdout \<Rightarrow>
          pool containerID containerName (pattern cfg) (NumCPU e) (fanout e cmdArgs)
            (scan [] stdout))"

text \<open>
  Goroutines send to one unbuffered channel: the receiver sees an interleaving of what
  the senders send, each sender's values in its own order.
\<close>

inductive interleaves :: "'a list list \<Rightarrow> 'a list \<Rightarrow> bool" where
  drained: "list_all (\<lambda>q. q = []) qs \<Longrightarrow> interleaves qs []"
| receive: "i < length qs \<Longrightarrow> qs ! i = r # q \<Longrightarrow> interleaves (qs[i := q]) rs \<Longrightarrow>
            interleaves qs (r # rs)"

subsection \<open>\<^verbatim>\<open>runSearch\<close>\<close>

text \<open>
  The loop over the listed entries: an empty entry is passed over; any other entry is
  split at \<^verbatim>\<open>":"\<close> and a pipeline is started for \<^verbatim>\<open>parts[0]\<close>, \<^verbatim>\<open>parts[1]\<close>.
  Reading \<^verbatim>\<open>parts[1]\<close> of a slice of length 1 panics; the pipelines started before
  stay started.
\<close>

fun spawn :: "string list \<Rightarrow> (string \<times> string) list \<times> error option" where
  "spawn [] = ([], None)"
| "spawn (container # containers) =
     (if container = [] then spawn containers
      else (let parts = strings_Split container (CHR '':'') in
            if length parts < 2 then ([], Some IndexOutOfRange)
            else (let (started, err) = spawn containers
                  in ((parts ! 0, parts ! 1) # started, err))))"

text \<open>The loop over \<^verbatim>\<open>results\<close> in batch mode.\<close>

fun collect ::
  "(string \<rightharpoonup> Result list) \<times> int \<Rightarrow> Result list \<Rightarrow> (string \<rightharpoonup> Result list) \<times> int" where
  "collect (containerResults, totalMatches) [] = (containerResults, totalMatches)"
| "collect (containerResults, totalMatches) (result # results) =
     collect
       (containerResults(ContainerName result \<mapsto>
          (case containerResults (ContainerName result) of None \<Rightarrow> [] | Some g \<Rightarrow> g) @ [result]),
        totalMatches + 1)
       results"

text \<open>The send queues of all workers of all pipelines of a run.\<close>

definition pipelines :: "config \<Rightarrow> env \<Rightarrow> (string \<times> string) list \<Rightarrow> Result list list" where
  "pipelines cfg e sources =
     concat (map (\<lambda>(containerID, containerName).
                    searchContainerLogs cfg e containerID containerName) sources)"

definition docker_commands :: "config \<Rightarrow> (string \<times> string) list \<Rightarrow> string list list" where
  "docker_commands cfg sources =
     ps_args # map (\<lambda>(containerID, containerName). getDockerArgs cfg containerID) sources"

text \<open>
  Printing. Both print loops format \<^verbatim>\<open>result.ContainerID[:12]\<close>, which panics for an id
  of fewer than 12 bytes. In batch mode every collected result is printed after the
  collecting loop. In follow mode the printing goroutine receives every result, and prints
  one before it receives the next; \<^verbatim>\<open>runSearch\<close> returns when the pipelines are done,
  so all results but the last are printed for sure, and the last one as the environment
  has it.
\<close>

definition rendered :: "config \<Rightarrow> env \<Rightarrow> Result list \<Rightarrow> Result list" where
  "rendered cfg e arrivals =
     (if follow cfg \<and> \<not> last_rendered e then butlast arrivals else arrivals)"

definition print_panics :: "Result list \<Rightarrow> bool" where
  "print_panics results = list_ex (\<lambda>result. length (ContainerID result) < 12) results"

text \<open>
  \<^verbatim>\<open>runSearch\<close>, given the order in which the results arrive at the receiving loop.
  The loop over the entries takes no time on the scale of a subprocess: when it panics,
  the pipelines it has started have not run their command yet, and no result has
  arrived. In follow mode nothing is collected.
\<close>

definition runSearch :: "config \<Rightarrow> env \<Rightarrow> Result list \<Rightarrow> outcome" where
  "runSearch cfg e arrivals =
     (case getContainers e of
        Inl err \<Rightarrow> \<lparr>failure = Some err, commands = [ps_args], report = None\<rparr>
      | Inr containers \<Rightarrow>
          (case spawn containers of
             (started, Some err) \<Rightarrow>
               \<lparr>failure = Some err, commands = [ps_args], report = None\<rparr>
           | (sources, None) \<Rightarrow>
               \<lparr>failure = (if print_panics (rendered cfg e arrivals)
                            then Some SliceOutOfRange else None),
                commands = docker_commands cfg sources,
                report = (if follow cfg then None
                          else Some (collect (Map.empty, 0) arrivals))\<rparr>))"

text \<open>The results can arrive in this order: none when the run ends before a pipeline has
  run, and else an interleaving of what the workers of all pipelines send.\<close>

definition arrival_order :: "config \<Rightarrow> env \<Rightarrow> Result list \<Rightarrow> bool" where
  "arrival_order cfg e arrivals =
     (case getContainers e of
        Inl err \<Rightarrow> arrivals = []
      | Inr containers \<Rightarrow>
          (case spawn containers of
             (started, Some err) \<Rightarrow> arrivals = []
           | (sources, None) \<Rightarrow> interleaves (pipelines cfg e sources) arrivals))"

subsection \<open>\<^verbatim>\<open>RunE\<close> and \<^verbatim>\<open>rootCmd.Execute\<close>\<close>

definition rejected :: "error \<Rightarrow> outcome" where
  "rejected err = \<lparr>failure = Some err, commands = [], report = None\<rparr>"

definition RunE :: "config \<Rightarrow> string list \<Rightarrow> env \<Rightarrow> Result list \<Rightarrow> outcome" where
  "RunE cfg args e arrivals =
     (if 1 < length args then rejected TooManyArgs
      else (let cfg = (if length args = 1 then cfg\<lparr>pattern := args ! 0\<rparr> else cfg) in
            if pattern cfg = [] \<and> \<not> follow cfg \<and> tailLines cfg = 0 \<and> sincePeriod cfg = []
            then rejected NothingToDo
            else runSearch cfg e arrivals))"

text \<open>Cobra runs \<^verbatim>\<open>PreRunE\<close> before \<^verbatim>\<open>RunE\<close> and stops at the first error. The
  variable \<^verbatim>\<open>pattern\<close> is empty until \<^verbatim>\<open>RunE\<close> sets it.\<close>

definition Execute :: "string \<Rightarrow> int \<Rightarrow> bool \<Rightarrow> string list \<Rightarrow> env \<Rightarrow> Result list \<Rightarrow> outcome" where
  "Execute since tail fol args e arrivals =
     (let cfg = \<lparr>pattern = [], sincePeriod = since, tailLines = tail, follow = fol\<rparr> in
      case PreRunE cfg of
        Some err \<Rightarrow> rejected err
      | None \<Rightarrow> RunE cfg args e arrivals)"

text \<open>\<^verbatim>\<open>main\<close>: exit status 1 when \<^verbatim>\<open>Execute\<close> returns an error, 2 after a panic, 0 otherwise.\<close>

definition exit_status :: "outcome \<Rightarrow> int" where
  "exit_status out =
     (case failure out of
        None \<Rightarrow> 0
      | Some IndexOutOfRange \<Rightarrow> 2
      | Some SliceOutOfRange \<Rightarrow> 2
      | Some err \<Rightarrow> 1)"

subsection \<open>Example runs\<close>

text \<open>
  Two containers, \<open>A\<close> with three lines and \<open>B\<close> with one, on two CPUs; the listing
  has an empty line in it. With \<^verbatim>\<open>--tail 1\<close> the producer delivers the last line of
  \<open>A\<close> only.
\<close>

definition example_env :: env where
  "example_env =
     \<lparr>docker_ps = Some ''0a1b2c3d4e5f:A\<newline>\<newline>9f8e7d6c5b4a:B\<newline>'',
      docker_logs = (\<lambda>cmdArgs.
         if cmdArgs = [''logs'', ''0a1b2c3d4e5f'']
         then Some ''ok\<newline>error X\<newline>ok\<newline>''
         else if cmdArgs = [''logs'', ''9f8e7d6c5b4a'']
         then Some ''error Y\<newline>''
         else if cmdArgs = [''logs'', ''--tail'', ''1'', ''0a1b2c3d4e5f'']
         then Some ''ok\<newline>''
         else None),
      NumCPU = 2,
      fanout = (\<lambda>cmdArgs. if cmdArgs = [''logs'', ''0a1b2c3d4e5f''] then [0, 1, 0] else [0]),
      last_rendered = True\<rparr>"

definition example_config :: config where
  "example_config = \<lparr>pattern = ''error'', sincePeriod = [], tailLines = 0, follow = False\<rparr>"

definition tail_config :: config where
  "tail_config = \<lparr>pattern = [], sincePeriod = [], tailLines = 1, follow = False\<rparr>"

text \<open>A listing with an entry that has no colon.\<close>

definition broken_env :: env where
  "broken_env =
     \<lparr>docker_ps = Some ''aaa:A\<newline>broken\<newline>bbb:B\<newline>'',
      docker_logs = (\<lambda>cmdArgs. Some []),
      NumCPU = 2,
      fanout = (\<lambda>cmdArgs. []),
      last_rendered = True\<rparr>"

text \<open>The two matching lines of the example, as the workers send them.\<close>

definition result_X :: Result where
  "result_X =
     \<lparr>ContainerID = ''0a1b2c3d4e5f'', ContainerName = ''A'', Line = ''error X'', LineNum = 1\<rparr>"

definition result_Y :: Result where
  "result_Y =
     \<lparr>ContainerID = ''9f8e7d6c5b4a'', ContainerName = ''B'', Line = ''error Y'', LineNum = 1\<rparr>"

text \<open>An environment in which \<^verbatim>\<open>docker ps\<close> fails.\<close>

definition unreachable_env :: env where
  "unreachable_env =
     \<lparr>docker_ps = None,
      docker_logs = (\<lambda>cmdArgs. None),
      NumCPU = 2,
      fanout = (\<lambda>cmdArgs. []),
      last_rendered = True\<rparr>"



section \<open>Properties\<close>

subsection \<open>The line matcher\<close>

lemma HasPrefix_append: "strings_HasPrefix s pre = (\<exists>v. s = pre @ v)"
proof
  assume "strings_HasPrefix s pre"
  then have "s = pre @ drop (length pre) s"
    by (metis append_take_drop_id strings_HasPrefix_def)
  then show "\<exists>v. s = pre @ v" ..
next
  assume "\<exists>v. s = pre @ v"
  then show "strings_HasPrefix s pre"
    by (auto simp: strings_HasPrefix_def)
qed

lemma Index_lower: "- 1 \<le> strings_Index s substr"
  by (induction s) (auto simp: Let_def)

lemma Index_found: "(0 \<le> strings_Index s substr) = (\<exists>u v. s = u @ substr @ v)"
proof (induction s)
  case Nil
  show ?case by auto
next
  case (Cons c s)
  show ?case
  proof (cases "strings_HasPrefix (c # s) substr")
    case True
    then obtain v where "c # s = [] @ substr @ v"
      by (auto simp: HasPrefix_append)
    then have "\<exists>u v. c # s = u @ substr @ v" by blast
    with True show ?thesis by simp
  next
    case False
    have "(\<exists>u v. c # s = u @ substr @ v) = (\<exists>u v. s = u @ substr @ v)"
    proof
      assume "\<exists>u v. c # s = u @ substr @ v"
      then obtain u v where uv: "c # s = u @ substr @ v" by blast
      from False uv have "u \<noteq> []"
        by (auto simp: HasPrefix_append)
      then obtain u' where "u = c # u'"
        using uv by (cases u) auto
      with uv have "s = u' @ substr @ v" by simp
      then show "\<exists>u v. s = u @ substr @ v" by blast
    next
      assume "\<exists>u v. s = u @ substr @ v"
      then obtain u v where "s = u @ substr @ v" by blast
      then have "c # s = (c # u) @ substr @ v" by simp
      then show "\<exists>u v. c # s = u @ substr @ v" by blast
    qed
    moreover have "(0 \<le> strings_Index (c # s) substr) = (0 \<le> strings_Index s substr)"
      using False by (simp add: Let_def)
    ultimately show ?thesis
      using Cons by simp
  qed
qed

subsection \<open>Workers, fan-out and fan-in\<close>



text \<open>With a single worker, which then receives every line, the counter of the worker is the
  position of the line in the stream.\<close>

lemma worker_numbers:
  "worker cid cname pat k lines =
     map (\<lambda>(n, line). \<lparr>ContainerID = cid, ContainerName = cname, Line = line, LineNum = n\<rparr>)
       (filter (\<lambda>(n, line). strings_Contains line pat)
          (zip [k..k + int (length lines) - 1] lines))"
proof (induction lines arbitrary: k)
  case Nil
  show ?case by simp
next
  case (Cons l ls)
  have "[k..k + int (length (l # ls)) - 1] = k # [k + 1..k + 1 + int (length ls) - 1]"
    by (simp add: upto_rec1 add.commute add.left_commute)
  then show ?case
    by (simp add: Cons)
qed

lemma received_single: "received (replicate (length lines) 0) lines 0 = lines"
proof -
  have "filter (\<lambda>(line, v). v = 0) (zip lines (replicate (length lines) (0::nat))) =
        zip lines (replicate (length lines) 0)"
    by (rule filter_True) (auto dest: set_zip_rightD)
  then show ?thesis
    by (simp add: received_def)
qed

lemma single_worker_numbers_by_position:
  "pool cid cname pat 1 (replicate (length lines) 0) lines =
     [map (\<lambda>(n, line). \<lparr>ContainerID = cid, ContainerName = cname, Line = line, LineNum = n\<rparr>)
        (filter (\<lambda>(n, line). strings_Contains line pat) (zip [1..int (length lines)] lines))]"
  by (simp add: pool_def received_single worker_numbers)





lemma concat_update:
  "i < length qs \<Longrightarrow> qs ! i = r # q \<Longrightarrow> mset (concat qs) = add_mset r (mset (concat (qs[i := q])))"
proof (induction qs arbitrary: i)
  case Nil
  then show ?case by simp
next
  case (Cons a qs)
  then show ?case by (cases i) auto
qed

lemma drained_concat: "list_all (\<lambda>q. q = []) qs \<Longrightarrow> concat qs = []"
  by (induction qs) auto

lemma interleaves_mset: "interleaves qs rs \<Longrightarrow> mset rs = mset (concat qs)"
proof (induction rule: interleaves.induct)
  case (drained qs)
  then show ?case by (simp add: drained_concat)
next
  case (receive i qs r q rs)
  then show ?case by (simp add: concat_update)
qed

lemma collect_total: "snd (collect (m, t) rs) = t + int (length rs)"
  by (induction rs arbitrary: m t) auto

lemma collect_groups:
  "(case fst (collect (m, t) rs) k of None \<Rightarrow> [] | Some g \<Rightarrow> g) =
   (case m k of None \<Rightarrow> [] | Some g \<Rightarrow> g) @ filter (\<lambda>r. ContainerName r = k) rs"
  by (induction rs arbitrary: m t) (auto split: option.splits)

lemma collect_dom: "dom (fst (collect (m, t) rs)) = dom m \<union> ContainerName ` set rs"
  by (induction rs arbitrary: m t) auto

lemma length_by_key:
  "finite A \<Longrightarrow> f ` set rs \<subseteq> A \<Longrightarrow> (\<Sum>k\<in>A. length (filter (\<lambda>r. f r = k) rs)) = length rs"
proof (induction rs)
  case Nil
  then show ?case by simp
next
  case (Cons r rs)
  have "(\<Sum>k\<in>A. length (filter (\<lambda>x. f x = k) (r # rs))) =
        (\<Sum>k\<in>A. (if f r = k then 1 else 0) + length (filter (\<lambda>x. f x = k) rs))"
    by (intro sum.cong) auto
  also have "\<dots> = (\<Sum>k\<in>A. if f r = k then 1 else 0) + (\<Sum>k\<in>A. length (filter (\<lambda>x. f x = k) rs))"
    by (simp add: sum.distrib)
  also have "(\<Sum>k\<in>A. if f r = k then 1 else 0) = (1::nat)"
    using Cons.prems by (simp add: sum.delta')
  finally show ?case using Cons by simp
qed

lemma Split_fields:
  "strings_Split s sep =
     takeWhile (\<lambda>x. x \<noteq> sep) s #
     (if sep \<in> set s then strings_Split (tl (dropWhile (\<lambda>x. x \<noteq> sep) s)) sep else [])"
  by (induction s) (auto split: list.splits)

lemma Split_nonempty: "strings_Split s sep \<noteq> []"
  by (cases s) (auto split: list.splits)

subsection \<open>The loop over the listed entries\<close>

lemma spawn_error: "snd (spawn cs) = None \<or> snd (spawn cs) = Some IndexOutOfRange"
  by (induction cs) (auto simp: Let_def split: prod.splits)

lemma Split_without_sep: "sep \<notin> set s \<Longrightarrow> strings_Split s sep = [s]"
  by (subst Split_fields) auto

lemma Split_with_sep:
  assumes "sep \<in> set s"
  shows "2 \<le> length (strings_Split s sep) \<and>
         strings_Split s sep ! 0 = takeWhile (\<lambda>x. x \<noteq> sep) s \<and>
         strings_Split s sep ! 1 =
           takeWhile (\<lambda>x. x \<noteq> sep) (tl (dropWhile (\<lambda>x. x \<noteq> sep) s))"
proof -
  let ?rest = "tl (dropWhile (\<lambda>x. x \<noteq> sep) s)"
  have "strings_Split s sep = takeWhile (\<lambda>x. x \<noteq> sep) s # strings_Split ?rest sep"
    using assms by (subst Split_fields) simp
  moreover obtain f fs where "strings_Split ?rest sep = f # fs"
      and "f = takeWhile (\<lambda>x. x \<noteq> sep) ?rest"
    using Split_fields [of ?rest sep] by blast
  ultimately show ?thesis by simp
qed

lemma spawn_wellformed:
  "list_all (\<lambda>entry. entry = [] \<or> CHR '':'' \<in> set entry) cs \<Longrightarrow>
   spawn cs =
     (map (\<lambda>entry. (takeWhile (\<lambda>x. x \<noteq> CHR '':'') entry,
                      takeWhile (\<lambda>x. x \<noteq> CHR '':'') (tl (dropWhile (\<lambda>x. x \<noteq> CHR '':'') entry))))
        (filter (\<lambda>entry. entry \<noteq> []) cs), None)"
proof (induction cs)
  case Nil
  show ?case by simp
next
  case (Cons c cs)
  show ?case
  proof (cases "c = []")
    case True
    with Cons show ?thesis by simp
  next
    case False
    with Cons.prems have "CHR '':'' \<in> set c" by simp
    from Split_with_sep [OF this] False Cons show ?thesis
      by (simp add: Let_def)
  qed
qed

lemma spawn_malformed:
  "\<not> list_all (\<lambda>entry. entry = [] \<or> CHR '':'' \<in> set entry) cs \<Longrightarrow>
   snd (spawn cs) = Some IndexOutOfRange"
proof (induction cs)
  case Nil
  then show ?case by simp
next
  case (Cons c cs)
  show ?case
  proof (cases "c = [] \<or> CHR '':'' \<in> set c")
    case True
    with Cons have "snd (spawn cs) = Some IndexOutOfRange" by simp
    then show ?thesis
      by (auto simp: Let_def split: prod.splits)
  next
    case False
    then show ?thesis
      by (simp add: Split_without_sep)
  qed
qed

subsection \<open>The reader\<close>


lemma Split_append_other:
  "sep \<notin> set cur \<Longrightarrow> strings_Split (cur @ s) sep =
     (cur @ hd (strings_Split s sep)) # tl (strings_Split s sep)"
  by (induction cur) (auto split: list.splits simp: Split_nonempty)






subsection \<open>Evaluation\<close>

text \<open>The definitions that the simplifier unfolds to run the program on an example.\<close>

lemmas eval_strings =
  strings_TrimSpace_def leading_space_def trailing_space_def white_space_def
  strings_HasPrefix_def strings_HasSuffix_def strings_Contains_def dropCR_def
  MaxScanTokenSize_def

lemmas eval_run =
  getContainers_def pipelines_def searchContainerLogs_def getDockerArgs_def pool_def
  received_def fan_out_def docker_commands_def ps_args_def runSearch_def rendered_def
  print_panics_def Execute_def RunE_def PreRunE_def rejected_def exit_status_def Let_def
  upt_rec numeral_2_eq_2

lemmas eval_examples =
  example_env_def example_config_def tail_config_def broken_env_def unreachable_env_def
  result_X_def result_Y_def

subsection \<open>The example runs\<close>

lemma example_listing:
  "getContainers example_env = Inr [''0a1b2c3d4e5f:A'', [], ''9f8e7d6c5b4a:B'']"
  by (simp add: eval_strings eval_run eval_examples)

lemma example_sources:
  "spawn [''0a1b2c3d4e5f:A'', [], ''9f8e7d6c5b4a:B''] =
     ([(''0a1b2c3d4e5f'', ''A''), (''9f8e7d6c5b4a'', ''B'')], None)"
  by (simp add: eval_strings eval_run eval_examples)

lemma example_queues:
  "pipelines example_config example_env [(''0a1b2c3d4e5f'', ''A''), (''9f8e7d6c5b4a'', ''B'')] =
     [[], [result_X], [result_Y], []]"
  by (simp add: eval_strings eval_run eval_examples)

lemma example_arrival: "arrival_order example_config example_env [result_Y, result_X]"
proof -
  have "interleaves [[], [result_X], [result_Y], []] [result_Y, result_X]"
    apply (rule interleaves.receive [where i = 2 and q = "[]"])
      apply simp
     apply simp
    apply simp
    apply (rule interleaves.receive [where i = 1 and q = "[]"])
      apply simp
     apply simp
    apply simp
    apply (rule interleaves.drained)
    apply simp
    done
  then show ?thesis
    by (simp add: arrival_order_def example_listing example_sources example_queues)
qed

lemma broken_arrival: "arrival_order example_config broken_env []"
proof -
  have "getContainers broken_env = Inr [''aaa:A'', ''broken'', ''bbb:B'']"
    by (simp add: eval_strings eval_run eval_examples)
  moreover have "spawn [''aaa:A'', ''broken'', ''bbb:B''] = ([(''aaa'', ''A'')], Some IndexOutOfRange)"
    by (simp add: Let_def)
  ultimately show ?thesis
    by (simp add: arrival_order_def)
qed

subsection \<open>The claims\<close>

text \<open>
  Claim C1 says that the line numbers given to the lines of one source are 1, 2, 3, ...
  for every number of workers. In the code each worker has a counter of its own: with two
  workers, of which the first receives the line \<open>a\<close> and the second the line \<open>b\<close>, both
  lines are sent on with line number 1.
\<close>

theorem two_workers_number_both_lines_1:
  "fan_out 2 [0, 1] [''a'', ''b''] \<and>
   pool ''c1'' ''web'' [] 2 [0, 1] [''a'', ''b''] =
     [[\<lparr>ContainerID = ''c1'', ContainerName = ''web'', Line = ''a'', LineNum = 1\<rparr>],
      [\<lparr>ContainerID = ''c1'', ContainerName = ''web'', Line = ''b'', LineNum = 1\<rparr>]]"
  by (simp add: fan_out_def pool_def received_def strings_Contains_def upt_rec numeral_2_eq_2)

text \<open>
  Claim C2 says that a record carries the position of its line in the stream of its
  source. For the source with the lines \<open>ok\<close>, \<open>error X\<close>, \<open>ok\<close> and the pattern
  \<open>error\<close>, with two workers of which the second receives the second line, the one
  record carries line number 1; the position of the line is 2.
\<close>

theorem second_line_numbered_1:
  "fan_out 2 [0, 1, 0] [''ok'', ''error X'', ''ok''] \<and>
   pool ''aaa'' ''A'' ''error'' 2 [0, 1, 0] [''ok'', ''error X'', ''ok''] =
     [[], [\<lparr>ContainerID = ''aaa'', ContainerName = ''A'', Line = ''error X'', LineNum = 1\<rparr>]]"
  by (simp add: fan_out_def pool_def received_def strings_Contains_def strings_HasPrefix_def upt_rec numeral_2_eq_2)

text \<open>
  Claim C3. The test of a worker, \<^verbatim>\<open>strings.Contains(line, pattern)\<close>, is a function of
  the line and the pattern alone; it holds exactly when the pattern occurs in the line as
  a contiguous run of bytes (bytes are compared as they are, so the test is
  case-sensitive), and the empty pattern is contained in every line.
\<close>

theorem matcher_is_substring_containment:
  "strings_Contains line pat = (\<exists>u v. line = u @ pat @ v) \<and> strings_Contains line []"
proof -
  have "line = [] @ [] @ line" by simp
  then have "\<exists>u v. line = u @ [] @ v" by blast
  then show ?thesis
    by (simp add: strings_Contains_def Index_found)
qed

text \<open>
  Claim C4, as the code has it. The entries are the lines of the trimmed listing. An empty
  entry is passed over. When every other entry has a colon, the loop over the entries does
  not panic: a pipeline is started for each of them, in order, with the text before the
  first colon as the id and the text from there to the next colon as the name, the
  \<^verbatim>\<open>logs\<close> command of each is asked for, and the run fails only if a result is printed
  whose id has fewer than 12 bytes. An entry that is not empty and has no colon is not
  passed over: the run ends at it with the panic of an index out of range, and no report.
\<close>

theorem enumerator_skips_empty_entries_only:
  assumes "docker_ps e = Some output"
    and "entries = strings_Split (strings_TrimSpace output) (CHR 0x0A)"
  shows "(list_all (\<lambda>entry. entry = [] \<or> CHR '':'' \<in> set entry) entries \<longrightarrow>
            spawn entries =
              (map (\<lambda>entry. (takeWhile (\<lambda>x. x \<noteq> CHR '':'') entry,
                               takeWhile (\<lambda>x. x \<noteq> CHR '':'')
                                 (tl (dropWhile (\<lambda>x. x \<noteq> CHR '':'') entry))))
                 (filter (\<lambda>entry. entry \<noteq> []) entries), None) \<and>
            commands (runSearch cfg e arrivals) = docker_commands cfg (fst (spawn entries)) \<and>
            failure (runSearch cfg e arrivals) =
              (if print_panics (rendered cfg e arrivals) then Some SliceOutOfRange else None)) \<and>
         (\<not> list_all (\<lambda>entry. entry = [] \<or> CHR '':'' \<in> set entry) entries \<longrightarrow>
            failure (runSearch cfg e arrivals) = Some IndexOutOfRange \<and>
            report (runSearch cfg e arrivals) = None)"
proof -
  have gc: "getContainers e = Inr entries"
    using assms by (simp add: getContainers_def)
  show ?thesis
  proof (cases "list_all (\<lambda>entry. entry = [] \<or> CHR '':'' \<in> set entry) entries")
    case True
    from spawn_wellformed [OF True] True gc show ?thesis
      by (simp add: runSearch_def)
  next
    case False
    from spawn_malformed [OF False] False gc show ?thesis
      by (auto simp: runSearch_def split: prod.splits)
  qed
qed

text \<open>
  Claim C4 at the two example listings, each with an order in which the results of that run
  can arrive: one with an empty line, one with an entry without a colon.
\<close>

theorem enumerator_witness:
  "docker_ps example_env = Some ''0a1b2c3d4e5f:A\<newline>\<newline>9f8e7d6c5b4a:B\<newline>'' \<and>
   [''0a1b2c3d4e5f:A'', [], ''9f8e7d6c5b4a:B''] =
     strings_Split (strings_TrimSpace ''0a1b2c3d4e5f:A\<newline>\<newline>9f8e7d6c5b4a:B\<newline>'') (CHR 0x0A) \<and>
   list_all (\<lambda>entry. entry = [] \<or> CHR '':'' \<in> set entry)
     [''0a1b2c3d4e5f:A'', [], ''9f8e7d6c5b4a:B''] \<and>
   arrival_order example_config example_env [result_Y, result_X] \<and>
   spawn [''0a1b2c3d4e5f:A'', [], ''9f8e7d6c5b4a:B''] =
     ([(''0a1b2c3d4e5f'', ''A''), (''9f8e7d6c5b4a'', ''B'')], None) \<and>
   commands (runSearch example_config example_env [result_Y, result_X]) =
     [ps_args, [''logs'', ''0a1b2c3d4e5f''], [''logs'', ''9f8e7d6c5b4a'']] \<and>
   failure (runSearch example_config example_env [result_Y, result_X]) = None \<and>
   docker_ps broken_env = Some ''aaa:A\<newline>broken\<newline>bbb:B\<newline>'' \<and>
   [''aaa:A'', ''broken'', ''bbb:B''] =
     strings_Split (strings_TrimSpace ''aaa:A\<newline>broken\<newline>bbb:B\<newline>'') (CHR 0x0A) \<and>
   \<not> list_all (\<lambda>entry. entry = [] \<or> CHR '':'' \<in> set entry) [''aaa:A'', ''broken'', ''bbb:B''] \<and>
   arrival_order example_config broken_env [] \<and>
   failure (runSearch example_config broken_env []) = Some IndexOutOfRange"
proof -
  have a1: "docker_ps example_env = Some ''0a1b2c3d4e5f:A\<newline>\<newline>9f8e7d6c5b4a:B\<newline>''"
    by (simp add: example_env_def)
  have a2: "[''0a1b2c3d4e5f:A'', [], ''9f8e7d6c5b4a:B''] =
      strings_Split (strings_TrimSpace ''0a1b2c3d4e5f:A\<newline>\<newline>9f8e7d6c5b4a:B\<newline>'') (CHR 0x0A)"
    by (simp add: eval_strings eval_run eval_examples)
  have a3: "list_all (\<lambda>entry. entry = [] \<or> CHR '':'' \<in> set entry)
      [''0a1b2c3d4e5f:A'', [], ''9f8e7d6c5b4a:B'']"
    by simp
  have a4: "\<not> print_panics (rendered example_config example_env [result_Y, result_X])"
    by (simp add: eval_strings eval_run eval_examples)
  have a5: "docker_commands example_config [(''0a1b2c3d4e5f'', ''A''), (''9f8e7d6c5b4a'', ''B'')] =
      [ps_args, [''logs'', ''0a1b2c3d4e5f''], [''logs'', ''9f8e7d6c5b4a'']]"
    by (simp add: eval_strings eval_run eval_examples)
  have b1: "docker_ps broken_env = Some ''aaa:A\<newline>broken\<newline>bbb:B\<newline>''"
    by (simp add: broken_env_def)
  have b2: "[''aaa:A'', ''broken'', ''bbb:B''] =
      strings_Split (strings_TrimSpace ''aaa:A\<newline>broken\<newline>bbb:B\<newline>'') (CHR 0x0A)"
    by (simp add: eval_strings eval_run eval_examples)
  have b3: "\<not> list_all (\<lambda>entry. entry = [] \<or> CHR '':'' \<in> set entry) [''aaa:A'', ''broken'', ''bbb:B'']"
    by simp
  from enumerator_skips_empty_entries_only [OF a1 a2, of example_config "[result_Y, result_X]"] a3
  have "spawn [''0a1b2c3d4e5f:A'', [], ''9f8e7d6c5b4a:B''] =
        ([(''0a1b2c3d4e5f'', ''A''), (''9f8e7d6c5b4a'', ''B'')], None) \<and>
      commands (runSearch example_config example_env [result_Y, result_X]) =
        [ps_args, [''logs'', ''0a1b2c3d4e5f''], [''logs'', ''9f8e7d6c5b4a'']] \<and>
      failure (runSearch example_config example_env [result_Y, result_X]) = None"
    using a4 a5 by (simp add: example_sources)
  moreover from enumerator_skips_empty_entries_only [OF b1 b2, of example_config "[]"] b3
  have "failure (runSearch example_config broken_env []) = Some IndexOutOfRange"
    by blast
  ultimately show ?thesis
    using a1 a2 a3 b1 b2 b3 example_arrival broken_arrival by blast
qed

text \<open>Claim C4 as it is stated fails: the entry \<open>broken\<close> is not skipped, the run panics.\<close>

theorem malformed_entry_counterexample:
  "docker_ps broken_env = Some ''aaa:A\<newline>broken\<newline>bbb:B\<newline>'' \<and>
   failure (runSearch example_config broken_env []) = Some IndexOutOfRange \<and>
   exit_status (runSearch example_config broken_env []) = 2"
  by (simp add: eval_strings eval_run eval_examples)

text \<open>
  Claim C5. When the pattern is empty (no argument, or an empty one; with more than one
  argument the variable stays empty as well), \<^verbatim>\<open>follow\<close> is false, \<^verbatim>\<open>tailLines\<close> is 0
  and \<^verbatim>\<open>sincePeriod\<close> is empty, the run ends with a usage error, exit status 1, and no
  subprocess was asked for. Conversely, with at most one argument and a non-empty
  pattern, \<^verbatim>\<open>follow\<close>, a positive \<^verbatim>\<open>tailLines\<close> or a non-empty \<^verbatim>\<open>sincePeriod\<close>, this
  check lets the run through: \<^verbatim>\<open>RunE\<close> is \<^verbatim>\<open>runSearch\<close>, and the run never ends with
  the error of this check.
\<close>

theorem nothing_to_do_is_rejected:
  "((length args = 1 \<longrightarrow> args ! 0 = []) \<and> \<not> fol \<and> tail = 0 \<and> since = [] \<longrightarrow>
      failure (Execute since tail fol args e arrivals) =
        Some (if 1 < length args then TooManyArgs else NothingToDo) \<and>
      commands (Execute since tail fol args e arrivals) = [] \<and>
      exit_status (Execute since tail fol args e arrivals) = 1) \<and>
   (length args \<le> 1 \<and> ((length args = 1 \<and> args ! 0 \<noteq> []) \<or> fol \<or> 0 < tail \<or> since \<noteq> []) \<longrightarrow>
      RunE \<lparr>pattern = [], sincePeriod = since, tailLines = tail, follow = fol\<rparr> args e arrivals =
        runSearch \<lparr>pattern = (if length args = 1 then args ! 0 else []), sincePeriod = since,
                    tailLines = tail, follow = fol\<rparr> e arrivals \<and>
      failure (Execute since tail fol args e arrivals) \<noteq> Some NothingToDo)"
proof -
  have run: "failure (runSearch c e arrivals) \<noteq> Some NothingToDo" for c
    using spawn_error [of "strings_Split (strings_TrimSpace (the (docker_ps e))) (CHR 0x0A)"]
    by (auto simp: runSearch_def getContainers_def split: option.splits prod.splits)
  show ?thesis
    using run
    by (auto simp: Execute_def RunE_def PreRunE_def Let_def rejected_def exit_status_def
        strings_HasSuffix_def split: option.splits)
qed

text \<open>Claim C5 at a run without anything, and at a run with \<^verbatim>\<open>--tail 5\<close> alone.\<close>

theorem nothing_to_do_witness:
  "failure (Execute [] 0 False [] example_env []) = Some NothingToDo \<and>
   commands (Execute [] 0 False [] example_env []) = [] \<and>
   exit_status (Execute [] 0 False [] example_env []) = 1 \<and>
   RunE \<lparr>pattern = [], sincePeriod = [], tailLines = 5, follow = False\<rparr> [] example_env [] =
     runSearch \<lparr>pattern = [], sincePeriod = [], tailLines = 5, follow = False\<rparr> example_env [] \<and>
   failure (Execute [] 5 False [] example_env []) \<noteq> Some NothingToDo"
  using nothing_to_do_is_rejected [of "[]" False 0 "[]" example_env "[]"]
    nothing_to_do_is_rejected [of "[]" False 5 "[]" example_env "[]"]
  by simp

text \<open>
  Claim C6, as the code has it. For every value of \<^verbatim>\<open>--since\<close> that is not empty and
  does not end in \<open>h\<close>, \<open>m\<close> or \<open>s\<close>, the run ends in \<^verbatim>\<open>PreRunE\<close> with a usage
  error and exit status 1; no subprocess was asked for, neither the listing nor a stream,
  and there is no report.
\<close>

theorem invalid_since_rejected:
  assumes "since \<noteq> []"
    and "\<not> strings_HasSuffix since ''h''"
    and "\<not> strings_HasSuffix since ''m''"
    and "\<not> strings_HasSuffix since ''s''"
  shows "failure (Execute since tail fol args e arrivals) = Some InvalidSince \<and>
         commands (Execute since tail fol args e arrivals) = [] \<and>
         report (Execute since tail fol args e arrivals) = None \<and>
         exit_status (Execute since tail fol args e arrivals) = 1"
  using assms by (simp add: Execute_def PreRunE_def rejected_def exit_status_def)

text \<open>Claim C6 at \<^verbatim>\<open>--since 1x\<close>.\<close>

theorem invalid_since_rejected_witness:
  "''1x'' \<noteq> [] \<and> \<not> strings_HasSuffix ''1x'' ''h'' \<and> \<not> strings_HasSuffix ''1x'' ''m'' \<and>
   \<not> strings_HasSuffix ''1x'' ''s'' \<and>
   failure (Execute ''1x'' 0 False [''error''] example_env []) = Some InvalidSince \<and>
   commands (Execute ''1x'' 0 False [''error''] example_env []) = [] \<and>
   report (Execute ''1x'' 0 False [''error''] example_env []) = None \<and>
   exit_status (Execute ''1x'' 0 False [''error''] example_env []) = 1"
proof -
  have h: "''1x'' \<noteq> []" "\<not> strings_HasSuffix ''1x'' ''h''" "\<not> strings_HasSuffix ''1x'' ''m''"
    "\<not> strings_HasSuffix ''1x'' ''s''"
    by (simp_all add: strings_HasSuffix_def)
  from invalid_since_rejected [OF h, of 0 False "[''error'']" example_env "[]"] h
  show ?thesis by blast
qed

text \<open>
  Claim C6 as it is stated fails for the empty value (\<^verbatim>\<open>--since ""\<close>), which ends in none
  of the three letters: \<^verbatim>\<open>PreRunE\<close> checks a non-empty value only, and the run goes on to
  list the containers and read their logs. In the example, with the two results arriving
  in a possible order, it ends without an error.
\<close>

theorem empty_since_counterexample:
  "\<not> strings_HasSuffix [] ''h'' \<and> \<not> strings_HasSuffix [] ''m'' \<and> \<not> strings_HasSuffix [] ''s'' \<and>
   arrival_order \<lparr>pattern = ''error'', sincePeriod = [], tailLines = 0, follow = False\<rparr>
     example_env [result_Y, result_X] \<and>
   failure (Execute [] 0 False [''error''] example_env [result_Y, result_X]) = None \<and>
   commands (Execute [] 0 False [''error''] example_env [result_Y, result_X]) =
     [ps_args, [''logs'', ''0a1b2c3d4e5f''], [''logs'', ''9f8e7d6c5b4a'']] \<and>
   exit_status (Execute [] 0 False [''error''] example_env [result_Y, result_X]) = 0"
proof -
  have "\<not> strings_HasSuffix [] ''h'' \<and> \<not> strings_HasSuffix [] ''m'' \<and> \<not> strings_HasSuffix [] ''s'' \<and>
      failure (Execute [] 0 False [''error''] example_env [result_Y, result_X]) = None \<and>
      commands (Execute [] 0 False [''error''] example_env [result_Y, result_X]) =
        [ps_args, [''logs'', ''0a1b2c3d4e5f''], [''logs'', ''9f8e7d6c5b4a'']] \<and>
      exit_status (Execute [] 0 False [''error''] example_env [result_Y, result_X]) = 0"
    by (simp add: eval_strings eval_run eval_examples)
  moreover have "arrival_order \<lparr>pattern = ''error'', sincePeriod = [], tailLines = 0, follow = False\<rparr>
      example_env [result_Y, result_X]"
    using example_arrival by (simp add: example_config_def)
  ultimately show ?thesis by blast
qed

text \<open>
  Claim C7. When \<^verbatim>\<open>docker ps\<close> fails, \<^verbatim>\<open>runSearch\<close> returns the error of
  \<^verbatim>\<open>getContainers\<close>: the only subprocess asked for is the listing, no pipeline is
  started, no result can arrive, there is no report, and the exit status is 1. Whatever
  the flags and arguments, the whole run then fails, without a report and without a
  subprocess other than the listing.
\<close>

theorem enumeration_failure_is_fatal:
  assumes "docker_ps e = None"
  shows "runSearch cfg e arrivals =
           \<lparr>failure = Some ListingFailed, commands = [ps_args], report = None\<rparr> \<and>
         exit_status (runSearch cfg e arrivals) = 1 \<and>
         arrival_order cfg e arrivals = (arrivals = []) \<and>
         failure (Execute since tail fol args e arrivals) \<noteq> None \<and>
         report (Execute since tail fol args e arrivals) = None \<and>
         exit_status (Execute since tail fol args e arrivals) \<noteq> 0 \<and>
         set (commands (Execute since tail fol args e arrivals)) \<subseteq> {ps_args}"
proof -
  have run: "runSearch c e arrivals =
      \<lparr>failure = Some ListingFailed, commands = [ps_args], report = None\<rparr>" for c
    using assms by (simp add: runSearch_def getContainers_def)
  have order: "arrival_order cfg e arrivals = (arrivals = [])"
    using assms by (simp add: arrival_order_def getContainers_def)
  let ?out = "Execute since tail fol args e arrivals"
  have "(\<exists>err. ?out = rejected err) \<or>
        ?out = \<lparr>failure = Some ListingFailed, commands = [ps_args], report = None\<rparr>"
    by (auto simp: Execute_def RunE_def Let_def run split: option.splits)
  then have "failure ?out \<noteq> None \<and> report ?out = None \<and> exit_status ?out \<noteq> 0 \<and>
      set (commands ?out) \<subseteq> {ps_args}"
    by (auto simp: rejected_def exit_status_def split: error.splits)
  with run order show ?thesis
    by (simp add: exit_status_def)
qed

text \<open>Claim C7 at an environment where the listing fails.\<close>

theorem enumeration_failure_witness:
  "docker_ps unreachable_env = None \<and>
   runSearch example_config unreachable_env [] =
     \<lparr>failure = Some ListingFailed, commands = [ps_args], report = None\<rparr> \<and>
   exit_status (runSearch example_config unreachable_env []) = 1 \<and>
   failure (Execute [] 0 False [''error''] unreachable_env []) \<noteq> None \<and>
   report (Execute [] 0 False [''error''] unreachable_env []) = None \<and>
   exit_status (Execute [] 0 False [''error''] unreachable_env []) \<noteq> 0 \<and>
   set (commands (Execute [] 0 False [''error''] unreachable_env [])) \<subseteq> {ps_args}"
proof -
  have h: "docker_ps unreachable_env = None"
    by (simp add: unreachable_env_def)
  from enumeration_failure_is_fatal [OF h, of example_config "[]" "[]" 0 False "[''error'']"] h
  show ?thesis by blast
qed

text \<open>
  Claim C8. Let the argument list be \<open>logs\<close>, then \<open>--follow\<close> exactly when
  \<^verbatim>\<open>follow\<close> is set, then \<open>--since\<close> and the value exactly when \<^verbatim>\<open>sincePeriod\<close> is not
  empty, then \<open>--tail\<close> and the number in decimal exactly when \<^verbatim>\<open>tailLines\<close> is
  positive, then the id of the source. This is the list of \<^verbatim>\<open>getDockerArgs\<close>; the
  pipeline of the source asks the producer for the stream of exactly this list, and a run
  asks for it for every source it has started a pipeline for. The filters are not applied
  again: every line the reader gets from that stream goes to the workers, and two
  pipelines with the same pattern and the same number of workers, whatever their
  \<^verbatim>\<open>follow\<close>, \<^verbatim>\<open>sincePeriod\<close> and \<^verbatim>\<open>tailLines\<close>, send the same results when the producer
  delivers the same stream and the lines go to the same workers.
\<close>

theorem filters_are_handed_to_the_producer:
  assumes "cmdArgs =
     [''logs''] @
     (if follow cfg then [''--follow''] else []) @
     (if sincePeriod cfg \<noteq> [] then [''--since'', sincePeriod cfg] else []) @
     (if 0 < tailLines cfg then [''--tail'', Sprintf_d (tailLines cfg)] else []) @
     [containerID]"
  shows "getDockerArgs cfg containerID = cmdArgs \<and>
         searchContainerLogs cfg e containerID containerName =
           (case docker_logs e cmdArgs of
              None \<Rightarrow> []
            | Some stdout \<Rightarrow>
                pool containerID containerName (pattern cfg) (NumCPU e) (fanout e cmdArgs)
                  (scan [] stdout)) \<and>
         (getContainers e = Inr containers \<and> spawn containers = (sources, None) \<and>
          (containerID, containerName) \<in> set sources \<longrightarrow>
            cmdArgs \<in> set (commands (runSearch cfg e arrivals))) \<and>
         (pattern cfg' = pattern cfg \<and> NumCPU e' = NumCPU e \<and>
          docker_logs e' (getDockerArgs cfg' containerID) = docker_logs e cmdArgs \<and>
          fanout e' (getDockerArgs cfg' containerID) = fanout e cmdArgs \<longrightarrow>
            searchContainerLogs cfg' e' containerID containerName =
            searchContainerLogs cfg e containerID containerName)"
proof -
  have args: "getDockerArgs cfg containerID = cmdArgs"
    using assms by (simp add: getDockerArgs_def Let_def)
  have "cmdArgs \<in> set (commands (runSearch cfg e arrivals))"
    if "getContainers e = Inr containers" "spawn containers = (sources, None)"
      "(containerID, containerName) \<in> set sources"
  proof -
    have "commands (runSearch cfg e arrivals) = docker_commands cfg sources"
      using that(1,2) by (simp add: runSearch_def)
    moreover have "getDockerArgs cfg containerID \<in> set (docker_commands cfg sources)"
      using that(3) by (force simp: docker_commands_def)
    ultimately show ?thesis using args by simp
  qed
  moreover have "searchContainerLogs cfg e containerID containerName =
      (case docker_logs e cmdArgs of
         None \<Rightarrow> []
       | Some stdout \<Rightarrow>
           pool containerID containerName (pattern cfg) (NumCPU e) (fanout e cmdArgs)
             (scan [] stdout))"
    using args by (simp add: searchContainerLogs_def Let_def)
  moreover have "searchContainerLogs cfg' e' containerID containerName =
      searchContainerLogs cfg e containerID containerName"
    if "pattern cfg' = pattern cfg" "NumCPU e' = NumCPU e"
      "docker_logs e' (getDockerArgs cfg' containerID) = docker_logs e cmdArgs"
      "fanout e' (getDockerArgs cfg' containerID) = fanout e cmdArgs"
    using that args by (simp add: searchContainerLogs_def Let_def cong: option.case_cong)
  ultimately show ?thesis
    using args by blast
qed

text \<open>
  Claim C8 at the first source of the example with \<^verbatim>\<open>--tail 1\<close> and no pattern: the
  producer is asked for the last line, and that line is sent on with line number 1.
\<close>

theorem filters_witness:
  "[''logs'', ''--tail'', ''1'', ''0a1b2c3d4e5f''] =
     [''logs''] @
     (if follow tail_config then [''--follow''] else []) @
     (if sincePeriod tail_config \<noteq> [] then [''--since'', sincePeriod tail_config] else []) @
     (if 0 < tailLines tail_config then [''--tail'', Sprintf_d (tailLines tail_config)] else []) @
     [''0a1b2c3d4e5f''] \<and>
   getDockerArgs tail_config ''0a1b2c3d4e5f'' = [''logs'', ''--tail'', ''1'', ''0a1b2c3d4e5f''] \<and>
   searchContainerLogs tail_config example_env ''0a1b2c3d4e5f'' ''A'' =
     [[\<lparr>ContainerID = ''0a1b2c3d4e5f'', ContainerName = ''A'', Line = ''ok'', LineNum = 1\<rparr>], []] \<and>
   getContainers example_env = Inr [''0a1b2c3d4e5f:A'', [], ''9f8e7d6c5b4a:B''] \<and>
   spawn [''0a1b2c3d4e5f:A'', [], ''9f8e7d6c5b4a:B''] =
     ([(''0a1b2c3d4e5f'', ''A''), (''9f8e7d6c5b4a'', ''B'')], None) \<and>
   [''logs'', ''--tail'', ''1'', ''0a1b2c3d4e5f''] \<in> set (commands (runSearch tail_config example_env []))"
proof -
  have one: "Sprintf_d 1 = ''1''"
    by code_simp
  have h: "[''logs'', ''--tail'', ''1'', ''0a1b2c3d4e5f''] =
     [''logs''] @
     (if follow tail_config then [''--follow''] else []) @
     (if sincePeriod tail_config \<noteq> [] then [''--since'', sincePeriod tail_config] else []) @
     (if 0 < tailLines tail_config then [''--tail'', Sprintf_d (tailLines tail_config)] else []) @
     [''0a1b2c3d4e5f'']"
    using one by (simp add: eval_examples)
  have p: "(case docker_logs example_env [''logs'', ''--tail'', ''1'', ''0a1b2c3d4e5f''] of
              None \<Rightarrow> []
            | Some stdout \<Rightarrow>
                pool ''0a1b2c3d4e5f'' ''A'' (pattern tail_config) (NumCPU example_env)
                  (fanout example_env [''logs'', ''--tail'', ''1'', ''0a1b2c3d4e5f''])
                  (scan [] stdout)) =
     [[\<lparr>ContainerID = ''0a1b2c3d4e5f'', ContainerName = ''A'', Line = ''ok'', LineNum = 1\<rparr>], []]"
    by (simp add: eval_strings eval_run eval_examples)
  have m: "(''0a1b2c3d4e5f'', ''A'') \<in> set [(''0a1b2c3d4e5f'', ''A''), (''9f8e7d6c5b4a'', ''B'')]"
    by simp
  note T = filters_are_handed_to_the_producer
    [OF h, where e = example_env and containerName = "''A''"
       and containers = "[''0a1b2c3d4e5f:A'', [], ''9f8e7d6c5b4a:B'']"
       and sources = "[(''0a1b2c3d4e5f'', ''A''), (''9f8e7d6c5b4a'', ''B'')]"
       and arrivals = "[]" and cfg' = tail_config and e' = example_env]
  from T have r1: "getDockerArgs tail_config ''0a1b2c3d4e5f'' =
      [''logs'', ''--tail'', ''1'', ''0a1b2c3d4e5f'']"
    by (rule conjunct1)
  from T p have r2: "searchContainerLogs tail_config example_env ''0a1b2c3d4e5f'' ''A'' =
      [[\<lparr>ContainerID = ''0a1b2c3d4e5f'', ContainerName = ''A'', Line = ''ok'', LineNum = 1\<rparr>], []]"
    by (simp only:)
  from T m example_listing example_sources
  have r3: "[''logs'', ''--tail'', ''1'', ''0a1b2c3d4e5f''] \<in>
      set (commands (runSearch tail_config example_env []))"
    by blast
  from h r1 r2 r3 example_listing example_sources show ?thesis
    by blast
qed

text \<open>
  Claim C9. In batch mode, when the listing succeeds and every entry is read, then for
  every order in which the results can arrive the run has a report; its counter
  \<^verbatim>\<open>totalMatches\<close> is the sum of the sizes of the groups of its map, every group has as
  many records as arrived with the group's name, and with no source at all the map is
  empty and the counter is 0.
\<close>

theorem batch_totals:
  assumes "getContainers e = Inr containers"
    and "spawn containers = (sources, None)"
    and "\<not> follow cfg"
    and "arrival_order cfg e arrivals"
  shows "\<exists>containerResults totalMatches.
           report (runSearch cfg e arrivals) = Some (containerResults, totalMatches) \<and>
           totalMatches = (\<Sum>name\<in>dom containerResults. int (length (the (containerResults name)))) \<and>
           (\<forall>name\<in>dom containerResults.
              length (the (containerResults name)) =
              length (filter (\<lambda>result. ContainerName result = name) arrivals)) \<and>
           (sources = [] \<longrightarrow> containerResults = Map.empty \<and> totalMatches = 0)"
proof -
  obtain m t where c: "collect (Map.empty, 0) arrivals = (m, t)"
    by (cases "collect (Map.empty, 0) arrivals")
  have rep: "report (runSearch cfg e arrivals) = Some (m, t)"
    using assms(1-3) c by (simp add: runSearch_def)
  have t: "t = int (length arrivals)"
    using collect_total [of Map.empty 0 arrivals] c by simp
  have d: "dom m = ContainerName ` set arrivals"
    using collect_dom [of Map.empty 0 arrivals] c by simp
  have g: "length (the (m name)) = length (filter (\<lambda>result. ContainerName result = name) arrivals)"
    if "name \<in> dom m" for name
    using collect_groups [of Map.empty 0 arrivals name] c that by auto
  have "(\<Sum>name\<in>dom m. int (length (the (m name)))) =
        (\<Sum>name\<in>dom m. int (length (filter (\<lambda>result. ContainerName result = name) arrivals)))"
    by (rule sum.cong) (simp_all add: g)
  also have "\<dots> = int (\<Sum>name\<in>dom m. length (filter (\<lambda>result. ContainerName result = name) arrivals))"
    by simp
  also have "\<dots> = int (length arrivals)"
    using length_by_key [of "dom m" ContainerName arrivals] d by simp
  finally have total: "t = (\<Sum>name\<in>dom m. int (length (the (m name))))"
    using t by simp
  have none: "m = Map.empty \<and> t = 0" if "sources = []"
  proof -
    have "interleaves [] arrivals"
      using assms(1,2,4) that by (simp add: arrival_order_def pipelines_def)
    then have "mset arrivals = {#}"
      by (auto dest: interleaves_mset)
    with c show ?thesis by simp
  qed
  from rep total g none show ?thesis by blast
qed

text \<open>Claim C9 at the example: two sources, the result of \<open>B\<close> arriving before that of \<open>A\<close>.\<close>

theorem batch_totals_witness:
  "getContainers example_env = Inr [''0a1b2c3d4e5f:A'', [], ''9f8e7d6c5b4a:B''] \<and>
   spawn [''0a1b2c3d4e5f:A'', [], ''9f8e7d6c5b4a:B''] =
     ([(''0a1b2c3d4e5f'', ''A''), (''9f8e7d6c5b4a'', ''B'')], None) \<and>
   \<not> follow example_config \<and>
   arrival_order example_config example_env [result_Y, result_X] \<and>
   (\<exists>containerResults totalMatches.
      report (runSearch example_config example_env [result_Y, result_X]) =
        Some (containerResults, totalMatches) \<and>
      totalMatches = (\<Sum>name\<in>dom containerResults. int (length (the (containerResults name)))) \<and>
      totalMatches = 2)"
proof -
  have fo: "\<not> follow example_config"
    by (simp add: example_config_def)
  from batch_totals [OF example_listing example_sources fo example_arrival]
  obtain m t where rep: "report (runSearch example_config example_env [result_Y, result_X]) = Some (m, t)"
    and t: "t = (\<Sum>name\<in>dom m. int (length (the (m name))))"
    by blast
  have "snd (the (report (runSearch example_config example_env [result_Y, result_X]))) = 2"
    using fo by (simp add: runSearch_def example_listing example_sources collect_total)
  with rep have "t = 2" by simp
  with rep t fo example_listing example_sources example_arrival show ?thesis by blast
qed




end
